theory Spec2Isabelle
  imports Complex_Main "HOL-Library.AList"
begin

section \<open>PageRank (pagerank.py): the data model\<close>

text \<open>
  A page is a file name. The corpus is a Python dict from a page to the set of pages it
  links to; a dict keeps its keys in insertion order, so it is an association list, and a
  set is the duplicate-free list of its elements in the order the interpreter iterates
  them. Python floats are modelled as exact reals: rounding is not part of the model.
  The tables the functions build (\<open>probabilities\<close>, \<open>createdPages\<close>, \<open>ranks\<close>) are dicts
  from a page to a number.
\<close>

type_synonym page = string
type_synonym corpus = "(page \<times> page list) list"
type_synonym table = "(page \<times> real) list"

text \<open>The exceptions the interpreter can raise in these functions.\<close>

datatype py_error = KeyError page | ZeroDivisionError | IndexError | ValueError

text \<open>\<open>type(e).__name__\<close>: the class of a raised exception.\<close>

fun exception_class :: "py_error \<Rightarrow> string" where
  "exception_class (KeyError k) = ''KeyError''"
| "exception_class ZeroDivisionError = ''ZeroDivisionError''"
| "exception_class IndexError = ''IndexError''"
| "exception_class ValueError = ''ValueError''"

text \<open>
  What Python guarantees of a dict of sets: the keys are pairwise different, and so are
  the elements of each set.
\<close>

definition wf_corpus :: "corpus \<Rightarrow> bool" where
  "wf_corpus corpus \<longleftrightarrow>
     distinct (map fst corpus) \<and> (\<forall>(p, links) \<in> set corpus. distinct links)"

text \<open>
  What \<open>crawl\<close> guarantees of the corpus it builds (lines 39 to 46): a page does not link
  to itself, and every link leads to a page of the corpus.
\<close>

definition graph_invariant :: "corpus \<Rightarrow> bool" where
  "graph_invariant corpus \<longleftrightarrow>
     (\<forall>(p, links) \<in> set corpus. p \<notin> set links \<and> set links \<subseteq> set (map fst corpus))"

subsection \<open>Dict operations\<close>

text \<open>\<open>d[k]\<close> raises KeyError for a key that is missing.\<close>

definition dict_get :: "(page \<times> 'v) list \<Rightarrow> page \<Rightarrow> py_error + 'v" where
  "dict_get d k = (case map_of d k of None \<Rightarrow> Inl (KeyError k) | Some v \<Rightarrow> Inr v)"

text \<open>
  \<open>d[k] = v\<close> is \<open>AList.update k v d\<close>: the value is replaced where the key stands, and a
  new key goes to the end. \<open>d[k] += x\<close> reads \<open>d[k]\<close> first.
\<close>

definition dict_add :: "table \<Rightarrow> page \<Rightarrow> real \<Rightarrow> py_error + table" where
  "dict_add d k x =
     (case dict_get d k of Inl e \<Rightarrow> Inl e | Inr v \<Rightarrow> Inr (AList.update k (v + x) d))"

section \<open>transition_model (lines 51 to 81)\<close>

text \<open>
  Lines 67 to 71: \<open>all_pages\<close> collects the keys, and every key gets probability 0.
\<close>

fun init_pages :: "corpus \<Rightarrow> page list \<Rightarrow> table \<Rightarrow> page list \<times> table" where
  "init_pages [] all_pages probabilities = (all_pages, probabilities)"
| "init_pages ((pages, links) # rest) all_pages probabilities =
     init_pages rest (all_pages @ [pages]) (AList.update pages 0 probabilities)"

text \<open>
  Lines 74 and 75: every linked page is assigned \<open>damping_factor * (1/len(page_links))\<close>.
  The loop body runs only for a non-empty \<open>page_links\<close>, so the division is defined.
\<close>

fun link_loop :: "real \<Rightarrow> page list \<Rightarrow> page list \<Rightarrow> table \<Rightarrow> table" where
  "link_loop damping_factor page_links [] probabilities = probabilities"
| "link_loop damping_factor page_links (page # rest) probabilities =
     link_loop damping_factor page_links rest
       (AList.update page (damping_factor * (1 / real (length page_links))) probabilities)"

text \<open>
  Lines 78 and 79: every page of \<open>all_pages\<close> gets \<open>(1-damping_factor) * (1/len(all_pages))\<close>
  on top of what it has.
\<close>

fun random_loop :: "real \<Rightarrow> page list \<Rightarrow> page list \<Rightarrow> table \<Rightarrow> py_error + table" where
  "random_loop damping_factor all_pages [] probabilities = Inr probabilities"
| "random_loop damping_factor all_pages (page # rest) probabilities =
     (case dict_add probabilities page ((1 - damping_factor) * (1 / real (length all_pages))) of
        Inl e \<Rightarrow> Inl e
      | Inr probabilities' \<Rightarrow> random_loop damping_factor all_pages rest probabilities')"

definition transition_model :: "corpus \<Rightarrow> page \<Rightarrow> real \<Rightarrow> py_error + table" where
  "transition_model corpus page damping_factor =
     (case dict_get corpus page of
        Inl e \<Rightarrow> Inl e
      | Inr page_links \<Rightarrow>
          (case init_pages corpus [] [] of
             (all_pages, probabilities) \<Rightarrow>
               random_loop damping_factor all_pages all_pages
                 (link_loop damping_factor page_links page_links probabilities)))"

section \<open>sample_pagerank (lines 84 to 115)\<close>

text \<open>
  The random module is the interpreter's, not the repository's. It is modelled by what
  its documentation promises, with the random source an argument \<open>rnd\<close> whose \<open>i\<close>-th
  value decides the \<open>i\<close>-th draw: every element of the population can be drawn.
  \<open>random.choice\<close> raises IndexError on an empty sequence; \<open>random.choices\<close> with
  \<open>k=1\<close> returns a list of one element, raises IndexError on an empty population and
  ValueError when the weights are not as many as the population or their total is not
  positive.
\<close>

definition random_choice :: "nat \<Rightarrow> 'a list \<Rightarrow> py_error + 'a" where
  "random_choice r population =
     (if population = [] then Inl IndexError
      else Inr (population ! (r mod length population)))"

definition random_choices :: "nat \<Rightarrow> 'a list \<Rightarrow> real list \<Rightarrow> py_error + 'a list" where
  "random_choices r population weights =
     (if length weights \<noteq> length population then Inl ValueError
      else if population = [] then Inl IndexError
      else if sum_list weights \<le> 0 then Inl ValueError
      else Inr [population ! (r mod length population)])"

text \<open>Lines 96 to 98: every page starts at 0.\<close>

fun init_created :: "page list \<Rightarrow> table \<Rightarrow> table" where
  "init_created [] createdPages = createdPages"
| "init_created (page # rest) createdPages = init_created rest (AList.update page 0 createdPages)"

text \<open>
  Lines 110 to 113, \<open>for i in range(0, n-1)\<close>: the first argument counts the rounds that
  are left, \<open>i\<close> is the number of the next draw. \<open>createdPages[new_page[0]] += 1/n\<close>
  reads the entry, then divides, then stores.
\<close>

fun sample_loop ::
  "nat \<Rightarrow> (nat \<Rightarrow> nat) \<Rightarrow> nat \<Rightarrow> corpus \<Rightarrow> real \<Rightarrow> int \<Rightarrow> table \<Rightarrow> table \<Rightarrow> py_error + table" where
  "sample_loop 0 rnd i corpus damping_factor n createdPages current_probabilities =
     Inr createdPages"
| "sample_loop (Suc left) rnd i corpus damping_factor n createdPages current_probabilities =
     (case random_choices (rnd i) (map fst current_probabilities)
             (map snd current_probabilities) of
        Inl e \<Rightarrow> Inl e
      | Inr new_page \<Rightarrow>
          (case dict_get createdPages (new_page ! 0) of
             Inl e \<Rightarrow> Inl e
           | Inr v \<Rightarrow>
               if n = 0 then Inl ZeroDivisionError
               else
                 (case transition_model corpus (new_page ! 0) damping_factor of
                    Inl e \<Rightarrow> Inl e
                  | Inr current_probabilities' \<Rightarrow>
                      sample_loop left rnd (Suc i) corpus damping_factor n
                        (AList.update (new_page ! 0) (v + 1 / real_of_int n) createdPages)
                        current_probabilities')))"

definition sample_pagerank :: "(nat \<Rightarrow> nat) \<Rightarrow> corpus \<Rightarrow> real \<Rightarrow> int \<Rightarrow> py_error + table" where
  "sample_pagerank rnd corpus damping_factor n =
     (let pages = map fst corpus;
          createdPages = init_created pages []
      in case random_choice (rnd 0) pages of
           Inl e \<Rightarrow> Inl e
         | Inr first_page \<Rightarrow>
             if n = 0 then Inl ZeroDivisionError
             else
               (case transition_model corpus first_page damping_factor of
                  Inl e \<Rightarrow> Inl e
                | Inr current_probabilities \<Rightarrow>
                    sample_loop (nat (n - 1)) rnd 1 corpus damping_factor n
                      (AList.update first_page (1 / real_of_int n) createdPages)
                      current_probabilities))"

section \<open>iterate_pagerank (lines 120 to 154)\<close>

text \<open>Lines 133 to 136, run twice by the source: every page starts at \<open>1 / N\<close>.\<close>

fun init_ranks :: "nat \<Rightarrow> page list \<Rightarrow> table \<Rightarrow> py_error + table" where
  "init_ranks N [] ranks = Inr ranks"
| "init_ranks N (key # rest) ranks =
     (if N = 0 then Inl ZeroDivisionError
      else init_ranks N rest (AList.update key (1 / real N) ranks))"

text \<open>
  Lines 143 to 146: the inner loop over the pages of the corpus, each with its set of
  links \<open>corpus[page]\<close>. \<open>num_links\<close> is at least 1 where it divides, since \<open>key\<close> is one
  of the links.
\<close>

fun sigma_loop :: "table \<Rightarrow> page \<Rightarrow> corpus \<Rightarrow> real \<Rightarrow> py_error + real" where
  "sigma_loop ranks key [] sigma = Inr sigma"
| "sigma_loop ranks key ((page, links) # rest) sigma =
     (if key \<in> set links then
        (case dict_get ranks page of
           Inl e \<Rightarrow> Inl e
         | Inr r \<Rightarrow> sigma_loop ranks key rest (sigma + r / real (length links)))
      else sigma_loop ranks key rest sigma)"

text \<open>
  Lines 140 to 151: one round over the keys. \<open>ranks[key] = new\<close> is stored before the
  next key is looked at, so the inner loop of a later key reads it.
\<close>

fun round_loop ::
  "corpus \<Rightarrow> real \<Rightarrow> nat \<Rightarrow> real \<Rightarrow> page list \<Rightarrow> table \<Rightarrow> nat \<Rightarrow> py_error + table \<times> nat" where
  "round_loop corpus damping_factor N threshold [] ranks count = Inr (ranks, count)"
| "round_loop corpus damping_factor N threshold (key # rest) ranks count =
     (if N = 0 then Inl ZeroDivisionError
      else
        (case sigma_loop ranks key corpus 0 of
           Inl e \<Rightarrow> Inl e
         | Inr sigma \<Rightarrow>
             (let new = (1 - damping_factor) / real N + damping_factor * sigma
              in case dict_get ranks key of
                   Inl e \<Rightarrow> Inl e
                 | Inr old \<Rightarrow>
                     round_loop corpus damping_factor N threshold rest
                       (AList.update key new ranks)
                       (if \<bar>old - new\<bar> < threshold then count + 1 else count))))"

text \<open>
  Lines 138 to 153, \<open>while True\<close>: a loop that may run forever, so the result is an
  option and None stands for a run that never leaves the loop. The ranks of the model
  are exact reals, and whether a round settles depends on the arithmetic: a value
  \<open>Some\<close> of the model says what the loop computes where rounding to doubles does not
  change which rounds settle, and is no proof that the program leaves the loop. With
  doubles the program can cycle: on the corpus 1 \<open>\<rightarrow>\<close> {3}, 2 \<open>\<rightarrow>\<close> {1}, 3 \<open>\<rightarrow>\<close> {2},
  X \<open>\<rightarrow>\<close> {1} with the damping factor 0.9999999999999999 the rounded ranks alternate
  between (0.5, 0.25, 0.5, e) and (0.25, 0.5, 0.25, e), where e is 2 to the power -55,
  and no round counts all four pages.
\<close>

partial_function (option) iterate_loop ::
  "corpus \<Rightarrow> real \<Rightarrow> nat \<Rightarrow> real \<Rightarrow> table \<Rightarrow> (py_error + table) option" where
  "iterate_loop corpus damping_factor N threshold ranks =
     (case round_loop corpus damping_factor N threshold (map fst corpus) ranks 0 of
        Inl e \<Rightarrow> Some (Inl e)
      | Inr (ranks', count) \<Rightarrow>
          if count = N then Some (Inr ranks')
          else iterate_loop corpus damping_factor N threshold ranks')"

declare iterate_loop.simps [code]

text \<open>Line 130: the threshold is a local constant of the function.\<close>

definition threshold :: real where
  "threshold = 5 / 10000"

definition iterate_pagerank :: "corpus \<Rightarrow> real \<Rightarrow> (py_error + table) option" where
  "iterate_pagerank corpus damping_factor =
     (let N = length corpus
      in case init_ranks N (map fst corpus) [] of
           Inl e \<Rightarrow> Some (Inl e)
         | Inr ranks \<Rightarrow>
             (case init_ranks N (map fst corpus) ranks of
                Inl e \<Rightarrow> Some (Inl e)
              | Inr ranks' \<Rightarrow> iterate_loop corpus damping_factor N threshold ranks'))"

section \<open>Auxiliary notions for the proofs\<close>

text \<open>The table that holds \<open>f k\<close> for every key \<open>k\<close> of a list of keys, in their order.\<close>

definition tabulate :: "(page \<Rightarrow> 'v) \<Rightarrow> page list \<Rightarrow> (page \<times> 'v) list" where
  "tabulate f ks = map (\<lambda>k. (k, f k)) ks"


text \<open>
  What the inner loop of \<open>iterate_pagerank\<close> adds up for \<open>key\<close> when the ranks are given
  by \<open>x\<close>, and the new rank of lines 141 to 148.
\<close>

definition incoming :: "corpus \<Rightarrow> (page \<Rightarrow> real) \<Rightarrow> page \<Rightarrow> real" where
  "incoming corpus x key =
     sum_list (map (\<lambda>(page, links). if key \<in> set links then x page / real (length links) else 0)
       corpus)"




text \<open>
  The update rule as the specification words it (section 4.3), for comparison with the
  code: the new rank of \<open>p\<close> is computed from the ranks \<open>old\<close> of the previous round, and a
  page without links counts as linking to every page.
\<close>

definition spec_new_rank :: "corpus \<Rightarrow> real \<Rightarrow> (page \<Rightarrow> real) \<Rightarrow> page \<Rightarrow> real" where
  "spec_new_rank corpus d old p =
     (1 - d) / real (length corpus)
     + d * sum_list (map (\<lambda>(q, links).
             if links = [] then old q / real (length corpus)
             else if p \<in> set links then old q / real (length links)
             else 0) corpus)"




section \<open>Tables with a known list of keys\<close>

lemma tabulate_simps [simp]:
  "tabulate f [] = []"
  "tabulate f (k # ks) = (k, f k) # tabulate f ks"
  "map fst (tabulate f ks) = ks"
  "map snd (tabulate f ks) = map f ks"
  "length (tabulate f ks) = length ks"
  by (simp_all add: tabulate_def comp_def)

lemma tabulate_append: "tabulate f (ks @ ks') = tabulate f ks @ tabulate f ks'"
  by (simp add: tabulate_def)

lemma tabulate_cong: "(\<And>k. k \<in> set ks \<Longrightarrow> f k = g k) \<Longrightarrow> tabulate f ks = tabulate g ks"
  by (simp add: tabulate_def)

lemma dict_get_tabulate: "k \<in> set ks \<Longrightarrow> dict_get (tabulate f ks) k = Inr (f k)"
  by (induction ks) (auto simp: dict_get_def)

lemma dict_get_missing: "k \<notin> set (map fst d) \<Longrightarrow> dict_get d k = Inl (KeyError k)"
  by (induction d) (auto simp: dict_get_def)

lemma update_tabulate:
  "distinct ks \<Longrightarrow> k \<in> set ks \<Longrightarrow> AList.update k v (tabulate f ks) = tabulate (f(k := v)) ks"
  by (induction ks) (auto intro: tabulate_cong)

lemma update_tabulate_new:
  "k \<notin> set ks \<Longrightarrow> AList.update k v (tabulate f ks) = tabulate f ks @ [(k, v)]"
  by (induction ks) auto

lemma init_pages_tabulate:
  "distinct (all_pages @ map fst rest) \<Longrightarrow>
   init_pages rest all_pages (tabulate (\<lambda>_. 0) all_pages) =
     (all_pages @ map fst rest, tabulate (\<lambda>_. 0) (all_pages @ map fst rest))"
proof (induction rest arbitrary: all_pages)
  case Nil
  then show ?case by simp
next
  case (Cons a rest)
  obtain pages links where a: "a = (pages, links)" by (cases a)
  from Cons.prems a have new: "pages \<notin> set all_pages" and
    d: "distinct ((all_pages @ [pages]) @ map fst rest)" by auto
  show ?case
    using Cons.IH [OF d] new by (simp add: a update_tabulate_new tabulate_append)
qed

lemma link_loop_tabulate:
  "distinct ks \<Longrightarrow> set rest \<subseteq> set ks \<Longrightarrow>
   link_loop d page_links rest (tabulate f ks) =
     tabulate (\<lambda>p. if p \<in> set rest then d * (1 / real (length page_links)) else f p) ks"
proof (induction rest arbitrary: f)
  case Nil
  then show ?case by simp
next
  case (Cons page rest)
  then show ?case
    by (auto simp: update_tabulate intro!: tabulate_cong)
qed

lemma random_loop_tabulate:
  "distinct ks \<Longrightarrow> set rest \<subseteq> set ks \<Longrightarrow> distinct rest \<Longrightarrow>
   random_loop d all_pages rest (tabulate f ks) =
     Inr (tabulate (\<lambda>p. if p \<in> set rest then f p + (1 - d) * (1 / real (length all_pages))
                          else f p) ks)"
proof (induction rest arbitrary: f)
  case Nil
  then show ?case by simp
next
  case (Cons page rest)
  then show ?case
    by (auto simp: dict_add_def dict_get_tabulate update_tabulate intro!: tabulate_cong)
qed

lemma transition_model_tabulate:
  assumes "distinct (map fst corpus)" and "dict_get corpus page = Inr page_links"
    and "set page_links \<subseteq> set (map fst corpus)"
  shows "transition_model corpus page d =
    Inr (tabulate (\<lambda>p. (if p \<in> set page_links then d * (1 / real (length page_links)) else 0)
                        + (1 - d) * (1 / real (length corpus)))
           (map fst corpus))"
proof -
  have "init_pages corpus [] (tabulate (\<lambda>_. 0) []) =
      ([] @ map fst corpus, tabulate (\<lambda>_. 0::real) ([] @ map fst corpus))"
    using assms(1) by (intro init_pages_tabulate) simp
  then have init: "init_pages corpus [] [] = (map fst corpus, tabulate (\<lambda>_. 0) (map fst corpus))"
    by simp
  show ?thesis
    using assms
    by (auto simp: transition_model_def init link_loop_tabulate random_loop_tabulate
        intro!: tabulate_cong)
qed


section \<open>Properties of transition_model\<close>

text \<open>
  C7. For a corpus whose links stay inside the corpus and a page that has links, with a
  damping factor \<open>d\<close> strictly between 0 and 1, \<open>transition_model\<close> returns a table over
  the pages of the corpus in which every linked page has probability
  \<open>d / |links| + (1 - d) / N\<close>, every page has at least \<open>(1 - d) / N\<close>, and a linked
  page has strictly more than a page that is not linked (whatever the number of links: when
  every page is linked there is no such page).
\<close>

theorem transition_model_linked:
  assumes "wf_corpus corpus" and "graph_invariant corpus"
    and "0 < d" and "d < 1"
    and "dict_get corpus page = Inr page_links" and "page_links \<noteq> []"
  shows "\<exists>probabilities. transition_model corpus page d = Inr probabilities
      \<and> map fst probabilities = map fst corpus
      \<and> (\<forall>p \<in> set page_links. dict_get probabilities p =
            Inr (d / real (card (set page_links)) + (1 - d) / real (length corpus)))
      \<and> (\<forall>p \<in> set (map fst corpus). \<exists>v. dict_get probabilities p = Inr v
            \<and> (1 - d) / real (length corpus) \<le> v)
      \<and> (\<forall>p \<in> set page_links. \<forall>q \<in> set (map fst corpus) - set page_links.
            \<exists>v w. dict_get probabilities p = Inr v \<and> dict_get probabilities q = Inr w \<and> w < v)"
proof -
  have mem: "(page, page_links) \<in> set corpus"
    using assms(5) by (auto simp: dict_get_def split: option.splits dest: map_of_SomeD)
  have keys: "distinct (map fst corpus)" and dl: "distinct page_links"
    using assms(1) mem by (auto simp: wf_corpus_def)
  have sub: "set page_links \<subseteq> set (map fst corpus)"
    using assms(2) mem by (auto simp: graph_invariant_def)
  have card: "card (set page_links) = length page_links"
    using dl by (rule distinct_card)
  have pos: "0 < real (length page_links)"
    using assms(6) by simp
  have dpos: "0 < d / real (length page_links)"
    using assms(3) pos by simp
  define f where "f = (\<lambda>p. (if p \<in> set page_links then d * (1 / real (length page_links)) else 0)
      + (1 - d) * (1 / real (length corpus)))"
  have tm: "transition_model corpus page d = Inr (tabulate f (map fst corpus))"
    unfolding f_def by (rule transition_model_tabulate [OF keys assms(5) sub])
  have get: "dict_get (tabulate f (map fst corpus)) p = Inr (f p)"
    if "p \<in> set (map fst corpus)" for p
    using that by (rule dict_get_tabulate)
  have linked: "f p = d / real (card (set page_links)) + (1 - d) / real (length corpus)"
    if "p \<in> set page_links" for p
    using that by (simp add: f_def card)
  have other: "f q = (1 - d) / real (length corpus)" if "q \<notin> set page_links" for q
    using that by (simp add: f_def)
  have floor: "(1 - d) / real (length corpus) \<le> f p" for p
    using dpos by (simp add: f_def)
  have more: "f q < f p" if "p \<in> set page_links" "q \<notin> set page_links" for p q
    using that dpos by (simp add: f_def)
  have 1: "\<forall>p \<in> set page_links. dict_get (tabulate f (map fst corpus)) p =
      Inr (d / real (card (set page_links)) + (1 - d) / real (length corpus))"
  proof (intro ballI)
    fix p
    assume p: "p \<in> set page_links"
    with sub have "p \<in> set (map fst corpus)" by blast
    then have "dict_get (tabulate f (map fst corpus)) p = Inr (f p)" by (rule get)
    with linked [OF p] show "dict_get (tabulate f (map fst corpus)) p =
        Inr (d / real (card (set page_links)) + (1 - d) / real (length corpus))"
      by simp
  qed
  have 2: "\<forall>p \<in> set (map fst corpus). \<exists>v. dict_get (tabulate f (map fst corpus)) p = Inr v
      \<and> (1 - d) / real (length corpus) \<le> v"
    using get floor by blast
  have 3: "\<forall>p \<in> set page_links. \<forall>q \<in> set (map fst corpus) - set page_links.
      \<exists>v w. dict_get (tabulate f (map fst corpus)) p = Inr v
        \<and> dict_get (tabulate f (map fst corpus)) q = Inr w \<and> w < v"
  proof (intro ballI)
    fix p q
    assume p: "p \<in> set page_links" and q: "q \<in> set (map fst corpus) - set page_links"
    from p sub have "p \<in> set (map fst corpus)" by blast
    then have "dict_get (tabulate f (map fst corpus)) p = Inr (f p)"
      by (rule get)
    moreover from q have "dict_get (tabulate f (map fst corpus)) q = Inr (f q)"
      by (intro get) blast
    moreover from p q have "f q < f p"
      by (intro more) blast+
    ultimately show "\<exists>v w. dict_get (tabulate f (map fst corpus)) p = Inr v
        \<and> dict_get (tabulate f (map fst corpus)) q = Inr w \<and> w < v"
      by blast
  qed
  show ?thesis
    unfolding tm using 1 2 3 by simp
qed


theorem transition_model_linked_witness:
  "wf_corpus [(''A'', [''B'', ''C'']), (''B'', []), (''C'', [''A''])]
   \<and> graph_invariant [(''A'', [''B'', ''C'']), (''B'', []), (''C'', [''A''])]
   \<and> (\<exists>probabilities.
        transition_model [(''A'', [''B'', ''C'']), (''B'', []), (''C'', [''A''])] ''A'' (17 / 20)
          = Inr probabilities
        \<and> dict_get probabilities ''B'' = Inr (17 / 20 / 2 + (1 - 17 / 20) / 3)
        \<and> dict_get probabilities ''C'' = Inr (17 / 20 / 2 + (1 - 17 / 20) / 3)
        \<and> (\<exists>v w. dict_get probabilities ''B'' = Inr v \<and> dict_get probabilities ''A'' = Inr w
              \<and> (1 - 17 / 20) / 3 \<le> w \<and> w < v))"
proof -
  let ?g = "[(''A'', [''B'', ''C'']), (''B'', []), (''C'', [''A''])] :: corpus"
  have wf: "wf_corpus ?g" by (simp add: wf_corpus_def)
  have inv: "graph_invariant ?g" by (simp add: graph_invariant_def)
  have links: "dict_get ?g ''A'' = Inr [''B'', ''C'']" by (simp add: dict_get_def)
  have d0: "(0::real) < 17 / 20" and d1: "(17 / 20 :: real) < 1" and ne: "[''B'', ''C''] \<noteq> []"
    by simp_all
  obtain probabilities where tm: "transition_model ?g ''A'' (17 / 20) = Inr probabilities"
    and linked: "\<forall>p \<in> set [''B'', ''C'']. dict_get probabilities p =
        Inr (17 / 20 / real (card (set [''B'', ''C''])) + (1 - 17 / 20) / real (length ?g))"
    and floor: "\<forall>p \<in> set (map fst ?g). \<exists>v. dict_get probabilities p = Inr v
        \<and> (1 - 17 / 20) / real (length ?g) \<le> v"
    and more: "\<forall>p \<in> set [''B'', ''C'']. \<forall>q \<in> set (map fst ?g) - set [''B'', ''C''].
        \<exists>v w. dict_get probabilities p = Inr v \<and> dict_get probabilities q = Inr w \<and> w < v"
    using transition_model_linked [OF wf inv d0 d1 links ne] by blast
  from linked have b: "dict_get probabilities ''B'' = Inr (17 / 20 / 2 + (1 - 17 / 20) / 3)"
    and c: "dict_get probabilities ''C'' = Inr (17 / 20 / 2 + (1 - 17 / 20) / 3)"
    by simp_all
  from floor obtain w where a: "dict_get probabilities ''A'' = Inr w"
    and w: "(1 - 17 / 20) / 3 \<le> w"
    by auto
  from more obtain v' w' where "dict_get probabilities ''B'' = Inr v'"
    and "dict_get probabilities ''A'' = Inr w'" and "w' < v'"
    by force
  with a b have "w < 17 / 20 / 2 + (1 - 17 / 20) / 3"
    by simp
  with wf inv tm a b c w show ?thesis
    by blast
qed

text \<open>
  C10 (as amended). For a page that is not a key of the corpus, \<open>transition_model\<close> raises
  Python's KeyError for that page at \<open>corpus[page]\<close> (line 64), before any table is built;
  it raises no other exception and returns nothing. The source defines no exception class
  of its own.
\<close>

theorem transition_model_unknown_page:
  "page \<notin> set (map fst corpus) \<Longrightarrow> transition_model corpus page d = Inl (KeyError page)"
  by (simp add: transition_model_def dict_get_missing)

theorem transition_model_unknown_page_witness:
  "''C'' \<notin> set (map fst [(''A'', [''B'']), (''B'', [''A''])])
   \<and> transition_model [(''A'', [''B'']), (''B'', [''A''])] ''C'' (17 / 20) = Inl (KeyError ''C'')"
proof -
  have h: "''C'' \<notin> set (map fst [(''A'', [''B'']), (''B'', [''A''])])" by simp
  from h transition_model_unknown_page [OF h, of "17 / 20"] show ?thesis
    by (rule conjI)
qed

text \<open>
  C10 as the specification states it, with an exception named UnknownNodeError, fails: the
  exception raised for the page C in a corpus of the pages A and B is of the class KeyError.
\<close>

theorem transition_model_unknown_page_counterexample:
  "transition_model [(''A'', [''B'']), (''B'', [''A''])] ''C'' (17 / 20) = Inl (KeyError ''C'')
   \<and> exception_class (KeyError ''C'') \<noteq> ''UnknownNodeError''"
  by (simp add: transition_model_def dict_get_def)

text \<open>
  C1 (fails on the code). On the page B of the corpus A \<open>\<rightarrow>\<close> {B, C}, B \<open>\<rightarrow>\<close> {}, C \<open>\<rightarrow>\<close> {A}, a
  page without links, and the damping factor 0.85, \<open>transition_model\<close> returns 0.05 for
  each of the three pages: the values sum to 0.15, not to 1. The loop of lines 74 and 75
  does not run for an empty set of links and nothing stands in for it.
\<close>

theorem transition_model_sink_sum:
  "transition_model [(''A'', [''B'', ''C'']), (''B'', []), (''C'', [''A''])] ''B'' (17 / 20)
     = Inr [(''A'', 1 / 20), (''B'', 1 / 20), (''C'', 1 / 20)]
   \<and> sum_list (map snd [(''A'', 1 / 20 :: real), (''B'', 1 / 20), (''C'', 1 / 20)]) = 3 / 20"
  by (simp add: transition_model_def dict_get_def dict_add_def)

text \<open>
  C2 (fails on the code). On the corpus of the single page A, which has no links, and the
  damping factor 0.85, \<open>transition_model\<close> gives A the probability 0.15, where the uniform
  distribution over one page gives 1.
\<close>

theorem transition_model_sink_not_uniform:
  "transition_model [(''A'', [])] ''A'' (17 / 20) = Inr [(''A'', 3 / 20)]
   \<and> (3 / 20 :: real) \<noteq> 1 / real (length [(''A'', [] :: page list)])"
  by (simp add: transition_model_def dict_get_def dict_add_def)

lemma sum_list_two_parts:
  "sum_list (map (\<lambda>p. (if p \<in> A then a else 0) + (c::real)) ks)
     = a * real (length (filter (\<lambda>p. p \<in> A) ks)) + c * real (length ks)"
  by (induction ks) (auto simp: algebra_simps)

text \<open>
  For a page that has links, in a corpus whose links stay inside the corpus, the table
  that \<open>transition_model\<close> returns sums to exactly 1, whatever the damping factor.
\<close>

theorem linked_page_sums_to_one:
  assumes "wf_corpus corpus" and "graph_invariant corpus"
    and "dict_get corpus page = Inr page_links" and "page_links \<noteq> []"
  shows "\<exists>probabilities. transition_model corpus page d = Inr probabilities
      \<and> map fst probabilities = map fst corpus \<and> sum_list (map snd probabilities) = 1"
proof -
  have mem: "(page, page_links) \<in> set corpus"
    using assms(3) by (auto simp: dict_get_def split: option.splits dest: map_of_SomeD)
  have keys: "distinct (map fst corpus)" and dl: "distinct page_links"
    using assms(1) mem by (auto simp: wf_corpus_def)
  have sub: "set page_links \<subseteq> set (map fst corpus)"
    using assms(2) mem by (auto simp: graph_invariant_def)
  have N: "0 < length corpus"
    using mem by (cases corpus) simp_all
  have n: "0 < length page_links"
    using assms(4) by simp
  have "length (filter (\<lambda>p. p \<in> set page_links) (map fst corpus))
      = card ({p. p \<in> set page_links} \<inter> set (map fst corpus))"
    using keys by (rule distinct_length_filter)
  also have "{p. p \<in> set page_links} \<inter> set (map fst corpus) = set page_links"
    using sub by blast
  also have "card (set page_links) = length page_links"
    using dl by (rule distinct_card)
  finally have count: "length (filter (\<lambda>p. p \<in> set page_links) (map fst corpus))
      = length page_links" .
  define f where "f = (\<lambda>p. (if p \<in> set page_links then d * (1 / real (length page_links)) else 0)
      + (1 - d) * (1 / real (length corpus)))"
  have tm: "transition_model corpus page d = Inr (tabulate f (map fst corpus))"
    unfolding f_def by (rule transition_model_tabulate [OF keys assms(3) sub])
  have "sum_list (map f (map fst corpus)) =
      d * (1 / real (length page_links)) * real (length page_links)
      + (1 - d) * (1 / real (length corpus)) * real (length (map fst corpus))"
    unfolding f_def sum_list_two_parts count ..
  also have "\<dots> = 1"
    using N n by simp
  finally show ?thesis
    using tm by simp
qed

theorem linked_page_sums_to_one_witness:
  "wf_corpus [(''A'', [''B'', ''C'']), (''B'', []), (''C'', [''A''])]
   \<and> graph_invariant [(''A'', [''B'', ''C'']), (''B'', []), (''C'', [''A''])]
   \<and> (\<exists>probabilities.
        transition_model [(''A'', [''B'', ''C'']), (''B'', []), (''C'', [''A''])] ''A'' (17 / 20)
          = Inr probabilities
        \<and> sum_list (map snd probabilities) = 1)"
proof -
  let ?g = "[(''A'', [''B'', ''C'']), (''B'', []), (''C'', [''A''])] :: corpus"
  have wf: "wf_corpus ?g" by (simp add: wf_corpus_def)
  have inv: "graph_invariant ?g" by (simp add: graph_invariant_def)
  have links: "dict_get ?g ''A'' = Inr [''B'', ''C'']" by (simp add: dict_get_def)
  have ne: "[''B'', ''C''] \<noteq> []" by simp
  from linked_page_sums_to_one [OF wf inv links ne, of "17 / 20"] wf inv show ?thesis
    by blast
qed

section \<open>Properties of sample_pagerank\<close>

lemma init_created_tabulate:
  "distinct (ks @ rest) \<Longrightarrow>
   init_created rest (tabulate (\<lambda>_. 0) ks) = tabulate (\<lambda>_. 0) (ks @ rest)"
proof (induction rest arbitrary: ks)
  case Nil
  then show ?case by simp
next
  case (Cons page rest)
  then have new: "page \<notin> set ks" and d: "distinct ((ks @ [page]) @ rest)"
    by auto
  show ?case
    using Cons.IH [OF d] new by (simp add: update_tabulate_new tabulate_append)
qed

lemma random_choices_member:
  assumes "population \<noteq> []" and "length weights = length population"
    and "0 < sum_list weights"
  shows "\<exists>p \<in> set population. random_choices r population weights = Inr [p]"
proof -
  have "r mod length population < length population"
    using assms(1) by simp
  then have "population ! (r mod length population) \<in> set population"
    by (rule nth_mem)
  with assms show ?thesis
    by (simp add: random_choices_def)
qed

lemma random_choice_member:
  assumes "population \<noteq> []"
  shows "\<exists>p \<in> set population. random_choice r population = Inr p"
proof -
  have "r mod length population < length population"
    using assms by simp
  then have "population ! (r mod length population) \<in> set population"
    by (rule nth_mem)
  with assms show ?thesis
    by (simp add: random_choice_def)
qed

lemma sum_list_pos_real:
  "xs \<noteq> [] \<Longrightarrow> (\<And>x. x \<in> set xs \<Longrightarrow> (0::real) < f x) \<Longrightarrow> 0 < sum_list (map f xs)"
proof (induction xs)
  case Nil
  then show ?case by simp
next
  case (Cons a xs)
  have "0 \<le> sum_list (map f xs)"
    using Cons.prems(2) by (intro sum_list_nonneg) (auto intro: less_imp_le)
  moreover have "0 < f a"
    using Cons.prems(2) by simp
  ultimately show ?case by simp
qed

lemma dict_get_key:
  "k \<in> set (map fst d) \<Longrightarrow> \<exists>v. dict_get d k = Inr v \<and> (k, v) \<in> set d"
  by (induction d) (auto simp: dict_get_def)

lemma transition_model_weights:
  assumes "wf_corpus corpus" and "graph_invariant corpus" and "0 < d" and "d < 1"
    and "page \<in> set (map fst corpus)"
  shows "\<exists>probabilities. transition_model corpus page d = Inr probabilities
      \<and> map fst probabilities = map fst corpus \<and> 0 < sum_list (map snd probabilities)"
proof -
  from assms(5) obtain page_links where get: "dict_get corpus page = Inr page_links"
    and mem: "(page, page_links) \<in> set corpus"
    using dict_get_key by blast
  have keys: "distinct (map fst corpus)"
    using assms(1) by (simp add: wf_corpus_def)
  have sub: "set page_links \<subseteq> set (map fst corpus)"
    using assms(2) mem by (auto simp: graph_invariant_def)
  have ne: "map fst corpus \<noteq> []"
    using assms(5) by auto
  define f where "f = (\<lambda>p. (if p \<in> set page_links then d * (1 / real (length page_links)) else 0)
      + (1 - d) * (1 / real (length corpus)))"
  have tm: "transition_model corpus page d = Inr (tabulate f (map fst corpus))"
    unfolding f_def by (rule transition_model_tabulate [OF keys get sub])
  have "0 < (1 - d) * (1 / real (length corpus))"
    using assms(4) ne by simp
  moreover have "0 \<le> d * (1 / real (length page_links))"
    using assms(3) by simp
  ultimately have "0 < f p" for p
    by (simp add: f_def)
  then have "0 < sum_list (map f (map fst corpus))"
    using ne by (intro sum_list_pos_real) auto
  with tm show ?thesis by simp
qed

lemma sample_loop_counts:
  assumes "wf_corpus corpus" and "graph_invariant corpus" and "0 < d" and "d < 1"
    and "n \<noteq> 0"
    and "map fst current_probabilities = map fst corpus"
    and "0 < sum_list (map snd current_probabilities)"
    and "corpus \<noteq> []"
    and "set visits \<subseteq> set (map fst corpus)"
  shows "\<exists>visits'. sample_loop left rnd i corpus d n
            (tabulate (\<lambda>p. real (count_list visits p) / real_of_int n) (map fst corpus))
            current_probabilities
          = Inr (tabulate (\<lambda>p. real (count_list visits' p) / real_of_int n) (map fst corpus))
        \<and> length visits' = length visits + left \<and> set visits' \<subseteq> set (map fst corpus)"
  using assms(6,7,9)
proof (induction left arbitrary: i current_probabilities visits)
  case 0
  then show ?case by auto
next
  case (Suc left)
  have keys: "distinct (map fst corpus)"
    using assms(1) by (simp add: wf_corpus_def)
  have ne: "map fst current_probabilities \<noteq> []"
    using Suc.prems(1) assms(8) by simp
  obtain p where p: "p \<in> set (map fst current_probabilities)"
    and draw: "random_choices (rnd i) (map fst current_probabilities)
        (map snd current_probabilities) = Inr [p]"
    using random_choices_member [OF ne _ Suc.prems(2), of "rnd i"] by auto
  from p Suc.prems(1) have pk: "p \<in> set (map fst corpus)" by simp
  obtain probabilities where tm: "transition_model corpus p d = Inr probabilities"
    and k': "map fst probabilities = map fst corpus"
    and w': "0 < sum_list (map snd probabilities)"
    using transition_model_weights [OF assms(1-4) pk] by blast
  have v': "set (p # visits) \<subseteq> set (map fst corpus)"
    using pk Suc.prems(3) by simp
  have upd: "AList.update p (real (count_list visits p) / real_of_int n + 1 / real_of_int n)
        (tabulate (\<lambda>p. real (count_list visits p) / real_of_int n) (map fst corpus))
      = tabulate (\<lambda>q. real (count_list (p # visits) q) / real_of_int n) (map fst corpus)"
    unfolding update_tabulate [OF keys pk]
    by (intro tabulate_cong) (simp add: add_divide_distrib)
  from Suc.IH [OF k' w' v', of "Suc i"] obtain visits' where
    "sample_loop left rnd (Suc i) corpus d n
       (tabulate (\<lambda>q. real (count_list (p # visits) q) / real_of_int n) (map fst corpus))
       probabilities
     = Inr (tabulate (\<lambda>p. real (count_list visits' p) / real_of_int n) (map fst corpus))"
    and "length visits' = length (p # visits) + left"
    and "set visits' \<subseteq> set (map fst corpus)"
    by blast
  then show ?case
    using draw tm assms(5) pk by (auto simp: dict_get_tabulate upd)
qed


lemma sum_list_counts:
  assumes "distinct ks" and "set visits \<subseteq> set ks" and "n \<noteq> 0"
    and "int (length visits) = n"
  shows "sum_list (map (\<lambda>p. real (count_list visits p) / real_of_int n) ks) = 1"
proof -
  have "sum_list (map (\<lambda>p. real (count_list visits p) / real_of_int n) ks)
      = (\<Sum>p\<in>set ks. real (count_list visits p) / real_of_int n)"
    using assms(1) by (rule sum_list_distinct_conv_sum_set)
  also have "\<dots> = real (\<Sum>p\<in>set ks. count_list visits p) / real_of_int n"
    by (simp add: sum_divide_distrib)
  also have "(\<Sum>p\<in>set ks. count_list visits p) = length visits"
    using assms(2) by (intro sum_count_set) simp_all
  also have "real (length visits) = real_of_int n"
    using assms(4) by (metis of_int_of_nat_eq)
  finally show ?thesis
    using assms(3) by simp
qed

text \<open>
  C8. For a non-empty corpus whose links stay inside the corpus, a damping factor strictly
  between 0 and 1 and \<open>n \<ge> 1\<close>, \<open>sample_pagerank\<close> returns, whatever the random draws, a
  table over the pages of the corpus for which there is a sequence of \<open>n\<close> visited pages
  such that the value of a page is the number of its visits divided by \<open>n\<close>: each of the
  \<open>n\<close> samples adds \<open>1/n\<close> to exactly one page. In exact arithmetic the values sum to 1.
\<close>

theorem sample_pagerank_sums_to_one:
  assumes "wf_corpus corpus" and "graph_invariant corpus" and "corpus \<noteq> []"
    and "0 < d" and "d < 1" and "1 \<le> n"
  shows "\<exists>createdPages visits. sample_pagerank rnd corpus d n = Inr createdPages
      \<and> int (length visits) = n \<and> set visits \<subseteq> set (map fst corpus)
      \<and> createdPages = map (\<lambda>p. (p, real (count_list visits p) / real_of_int n)) (map fst corpus)
      \<and> sum_list (map snd createdPages) = 1"
proof -
  have keys: "distinct (map fst corpus)"
    using assms(1) by (simp add: wf_corpus_def)
  have n0: "n \<noteq> 0"
    using assms(6) by simp
  have ne: "map fst corpus \<noteq> []"
    using assms(3) by simp
  obtain first_page where first: "first_page \<in> set (map fst corpus)"
    and draw: "random_choice (rnd 0) (map fst corpus) = Inr first_page"
    using random_choice_member [OF ne] by blast
  obtain current_probabilities where
    tm: "transition_model corpus first_page d = Inr current_probabilities"
    and k: "map fst current_probabilities = map fst corpus"
    and w: "0 < sum_list (map snd current_probabilities)"
    using transition_model_weights [OF assms(1,2,4,5) first] by blast
  have "init_created (map fst corpus) (tabulate (\<lambda>_. 0) []) =
      tabulate (\<lambda>_. 0) ([] @ map fst corpus)"
    using keys by (intro init_created_tabulate) simp
  then have init: "init_created (map fst corpus) [] = tabulate (\<lambda>_. 0) (map fst corpus)"
    by simp
  define created where
    "created = tabulate (\<lambda>p. real (count_list [first_page] p) / real_of_int n) (map fst corpus)"
  have upd: "AList.update first_page (1 / real_of_int n) (tabulate (\<lambda>_. 0) (map fst corpus))
      = created"
    unfolding update_tabulate [OF keys first] created_def
    by (intro tabulate_cong) simp
  have v: "set [first_page] \<subseteq> set (map fst corpus)"
    using first by simp
  obtain visits where
    loop: "sample_loop (nat (n - 1)) rnd (Suc 0) corpus d n created current_probabilities
      = Inr (tabulate (\<lambda>p. real (count_list visits p) / real_of_int n) (map fst corpus))"
    and len: "length visits = length [first_page] + nat (n - 1)"
    and sub: "set visits \<subseteq> set (map fst corpus)"
    unfolding created_def
    using sample_loop_counts [OF assms(1,2,4,5) n0 k w assms(3) v] by blast
  have len': "int (length visits) = n"
    using len assms(6) by simp
  have run: "sample_pagerank rnd corpus d n
      = Inr (tabulate (\<lambda>p. real (count_list visits p) / real_of_int n) (map fst corpus))"
    using draw n0 tm by (simp add: sample_pagerank_def init upd loop)
  have total: "sum_list (map snd
      (tabulate (\<lambda>p. real (count_list visits p) / real_of_int n) (map fst corpus))) = 1"
    using sum_list_counts [OF keys sub n0 len'] by simp
  show ?thesis
    using run len' sub total unfolding tabulate_def by blast
qed

theorem sample_pagerank_sums_to_one_witness:
  "wf_corpus [(''A'', [''B'', ''C'']), (''B'', []), (''C'', [''A''])]
   \<and> graph_invariant [(''A'', [''B'', ''C'']), (''B'', []), (''C'', [''A''])]
   \<and> (\<exists>createdPages.
        sample_pagerank (\<lambda>i. i) [(''A'', [''B'', ''C'']), (''B'', []), (''C'', [''A''])] (17 / 20) 4
          = Inr createdPages
        \<and> sum_list (map snd createdPages) = 1)"
proof -
  let ?g = "[(''A'', [''B'', ''C'']), (''B'', []), (''C'', [''A''])] :: corpus"
  have wf: "wf_corpus ?g" by (simp add: wf_corpus_def)
  have inv: "graph_invariant ?g" by (simp add: graph_invariant_def)
  have ne: "?g \<noteq> []" and d0: "(0::real) < 17 / 20" and d1: "(17 / 20 :: real) < 1"
    and n: "(1::int) \<le> 4"
    by simp_all
  from sample_pagerank_sums_to_one [OF wf inv ne d0 d1 n, of "\<lambda>i. i"]
  have "\<exists>createdPages. sample_pagerank (\<lambda>i. i) ?g (17 / 20) 4 = Inr createdPages
      \<and> sum_list (map snd createdPages) = 1"
    by blast
  with wf inv show ?thesis by blast
qed


section \<open>One round of iterate_pagerank\<close>




lemma incoming_cong:
  assumes "\<And>q. q \<in> set (map fst corpus) \<Longrightarrow> x q = y q"
  shows "incoming corpus x key = incoming corpus y key"
  unfolding incoming_def
proof (intro arg_cong [where f = sum_list] map_cong refl)
  fix a
  assume "a \<in> set corpus"
  then have "x (fst a) = y (fst a)"
    by (intro assms) simp
  then show "(case a of (page, links) \<Rightarrow> if key \<in> set links then x page / real (length links) else 0)
      = (case a of (page, links) \<Rightarrow> if key \<in> set links then y page / real (length links) else 0)"
    by (cases a) simp
qed














section \<open>Convergence of the rounds\<close>

















section \<open>Properties of iterate_pagerank\<close>




text \<open>
  C4 (fails on the code). On the corpus A \<open>\<rightarrow>\<close> {B}, B \<open>\<rightarrow>\<close> {A}, C \<open>\<rightarrow>\<close> {A}, in which
  every page has a link, with the damping factor 1/2, \<open>iterate_pagerank\<close> returns ranks
  that sum to 1 + 1/12288, further than 0.000001 from 1: a round stores each new rank at
  once (line 151), so the ranks it reads are partly new and partly old and the sum is not
  kept at 1. The docstring says that all values should sum to 1.
\<close>

theorem iterate_pagerank_sum_off_one:
  "iterate_pagerank [(''A'', [''B'']), (''B'', [''A'']), (''C'', [''A''])] (1 / 2)
     = Some (Inr [(''A'', 2731 / 6144), (''B'', 1593 / 4096), (''C'', 1 / 6)])
   \<and> sum_list (map snd [(''A'', 2731 / 6144 :: real), (''B'', 1593 / 4096), (''C'', 1 / 6)])
       = 1 + 1 / 12288
   \<and> \<not> \<bar>sum_list (map snd [(''A'', 2731 / 6144 :: real), (''B'', 1593 / 4096), (''C'', 1 / 6)])
          - 1\<bar> \<le> 1 / 1000000"
  by code_simp

text \<open>
  C3 (fails on the code). On the corpus A \<open>\<rightarrow>\<close> {B, C}, B \<open>\<rightarrow>\<close> {}, C \<open>\<rightarrow>\<close> {A} of the
  specification, with the damping factor 0.85 and all ranks 1/3, the first round gives A the
  rank 1/3: the page B, which has no links, adds nothing to the sum of any page, since
  \<open>key in corpus[page]\<close> is false for its empty set. With B counted as linking to every
  page the new rank of A is 77/180. After the round the ranks sum to 43/60: rank is lost.
\<close>

theorem round_loop_sink_loses_rank:
  "round_loop [(''A'', [''B'', ''C'']), (''B'', []), (''C'', [''A''])] (17 / 20) 3 threshold
     [''A'', ''B'', ''C''] [(''A'', 1 / 3), (''B'', 1 / 3), (''C'', 1 / 3)] 0
     = Inr ([(''A'', 1 / 3), (''B'', 23 / 120), (''C'', 23 / 120)], 1)
   \<and> spec_new_rank [(''A'', [''B'', ''C'']), (''B'', []), (''C'', [''A''])] (17 / 20)
       (\<lambda>_. 1 / 3) ''A'' = 77 / 180
   \<and> sum_list (map snd [(''A'', 1 / 3 :: real), (''B'', 23 / 120), (''C'', 23 / 120)]) = 43 / 60"
  by (simp add: dict_get_def threshold_def spec_new_rank_def Let_def)

text \<open>
  The corpus of one page without links, which the specification names as valid: the returned
  rank of the page is 0.15 and not 1.
\<close>

theorem iterate_pagerank_sink_result:
  "iterate_pagerank [(''A'', [])] (17 / 20) = Some (Inr [(''A'', 3 / 20)])"
  by code_simp




end
